theory Spec2Isabelle
  imports Main
begin

section \<open>Values and strings of the cleaning script\<close>

text \<open>
  \<^verbatim>\<open>helpers/cusip_cleaner.py\<close> receives the cells of a CSV column. A cell is a
  scalar: \<^verbatim>\<open>None\<close>, a NaN, a \<^verbatim>\<open>str\<close>, or some other non-null scalar (a number, a
  bool). Of the last kind the script observes only that it is not null, that it is not
  the empty string, and the string \<^verbatim>\<open>str(x)\<close>, which every function below takes as the
  parameter \<open>str_of\<close>.

  A \<^verbatim>\<open>str\<close> is a sequence of code points; the model has the code points below 256,
  one \<^typ>\<open>char\<close> each, read with \<^const>\<open>of_char\<close>.
\<close>

datatype 'a pyval = PNone | PNaN | PStr string | POther 'a

text \<open>\<^verbatim>\<open>pd.isna\<close> on a scalar.\<close>

fun pd_isna :: "'a pyval \<Rightarrow> bool" where
  "pd_isna PNone = True"
| "pd_isna PNaN = True"
| "pd_isna _ = False"

text \<open>The decimal digits of a count, as an f-string prints \<^verbatim>\<open>len(df)\<close>.\<close>

fun digits10 :: "nat \<Rightarrow> string" where
  "digits10 n =
     (if n < 10 then [char_of (48 + n)]
      else digits10 (n div 10) @ [char_of (48 + n mod 10)])"

declare digits10.simps [simp del]

text \<open>\<^verbatim>\<open>str(x)\<close>.\<close>

fun py_str :: "('a \<Rightarrow> string) \<Rightarrow> 'a pyval \<Rightarrow> string" where
  "py_str str_of PNone = ''None''"
| "py_str str_of PNaN = ''nan''"
| "py_str str_of (PStr s) = s"
| "py_str str_of (POther x) = str_of x"

text \<open>
  \<^verbatim>\<open>str.strip()\<close> removes leading and trailing whitespace: below 256 these are the
  code points 9 to 13, 28 to 32, 133 and 160.
\<close>

definition is_space :: "char \<Rightarrow> bool" where
  "is_space c =
     (let n = (of_char c :: nat)
      in (9 \<le> n \<and> n \<le> 13) \<or> (28 \<le> n \<and> n \<le> 32) \<or> n = 133 \<or> n = 160)"

definition py_strip :: "string \<Rightarrow> string" where
  "py_strip s = rev (dropWhile is_space (rev (dropWhile is_space s)))"

text \<open>
  \<^verbatim>\<open>str.upper()\<close> maps each code point on its own. Below 256: \<^verbatim>\<open>a\<close> to \<^verbatim>\<open>z\<close> and the
  accented letters 224 to 254 (but 247, the division sign) move down by 32, and 223
  (sharp s) becomes \<^verbatim>\<open>SS\<close>. The code points 181 and 255 go to code points above 255;
  the model leaves them as they are, and line 17 removes them either way.
\<close>

definition upper_char :: "char \<Rightarrow> string" where
  "upper_char c =
     (let n = (of_char c :: nat)
      in if 97 \<le> n \<and> n \<le> 122 then [char_of (n - 32)]
         else if n = 223 then ''SS''
         else if 224 \<le> n \<and> n \<le> 254 \<and> n \<noteq> 247 then [char_of (n - 32)]
         else [c])"

definition py_upper :: "string \<Rightarrow> string" where
  "py_upper s = concat (map upper_char s)"

text \<open>\<^verbatim>\<open>re.sub(r'[^A-Z0-9]', '', s)\<close> keeps the characters of the two ranges.\<close>

definition is_AZ09 :: "char \<Rightarrow> bool" where
  "is_AZ09 c =
     (let n = (of_char c :: nat)
      in (65 \<le> n \<and> n \<le> 90) \<or> (48 \<le> n \<and> n \<le> 57))"

definition re_sub_AZ09 :: "string \<Rightarrow> string" where
  "re_sub_AZ09 s = filter is_AZ09 s"

section \<open>\<^verbatim>\<open>clean_cusip\<close>\<close>

definition clean_cusip :: "('a \<Rightarrow> string) \<Rightarrow> 'a pyval \<Rightarrow> string option" where
  "clean_cusip str_of cusip_str =
     (if pd_isna cusip_str \<or> cusip_str = PStr [] then None
      else
        let s1 = py_upper (py_strip (py_str str_of cusip_str));
            s2 = re_sub_AZ09 s1
        in if length s2 < 6 then None
           else if length s2 = 6 then Some (s2 @ ''00'')
           else if length s2 = 7 then Some (s2 @ ''0'')
           else if length s2 = 8 then Some s2
           else if length s2 = 9 then Some (take 8 s2)
           else Some (take 8 s2))"

text \<open>
  The forms the specification speaks of: the cleaned form of a raw string (uppercased,
  every character outside \<^verbatim>\<open>A-Z0-9\<close> removed), and a canonical identifier
  (\<^verbatim>\<open>[A-Z0-9]{8}\<close>).
\<close>

definition cleaned_form :: "string \<Rightarrow> string" where
  "cleaned_form s = filter is_AZ09 (py_upper s)"

definition is_canonical :: "string \<Rightarrow> bool" where
  "is_canonical r = (length r = 8 \<and> list_all is_AZ09 r)"

text \<open>
  Two raw strings that differ only by letter case and by characters outside
  \<^verbatim>\<open>A-Z0-9\<close>, whitespace among them, as the specification words it: read from left
  to right, the two strings either show the same character up to case, or one of them
  shows a character that is not in \<^verbatim>\<open>A-Z0-9\<close>, which the other skips.
\<close>

definition same_letter :: "char \<Rightarrow> char \<Rightarrow> bool" where
  "same_letter c d = (upper_char c = upper_char d)"

definition outside_AZ09 :: "char \<Rightarrow> bool" where
  "outside_AZ09 c = (\<not> is_AZ09 c)"

inductive differ_only :: "string \<Rightarrow> string \<Rightarrow> bool" where
  done_both: "differ_only [] []"
| same: "same_letter c d \<Longrightarrow> differ_only s t \<Longrightarrow> differ_only (c # s) (d # t)"
| skip_left: "outside_AZ09 c \<Longrightarrow> differ_only s t \<Longrightarrow> differ_only (c # s) t"
| skip_right: "outside_AZ09 d \<Longrightarrow> differ_only s t \<Longrightarrow> differ_only s (d # t)"

code_pred differ_only .

text \<open>
  The narrower difference: the skipped character is whitespace, or no character of its
  uppercase form is in \<^verbatim>\<open>A-Z0-9\<close>. These are the characters of which nothing is left
  after lines 16 and 17: punctuation, spaces and symbols, but no letter \<^verbatim>\<open>a\<close> to
  \<^verbatim>\<open>z\<close> and not the sharp s (223), whose uppercase form is \<^verbatim>\<open>SS\<close>.
\<close>

definition removed_char :: "char \<Rightarrow> bool" where
  "removed_char c = (is_space c \<or> list_all (\<lambda>d. \<not> is_AZ09 d) (upper_char c))"

inductive differ_removed :: "string \<Rightarrow> string \<Rightarrow> bool" where
  done_both: "differ_removed [] []"
| same: "same_letter c d \<Longrightarrow> differ_removed s t \<Longrightarrow> differ_removed (c # s) (d # t)"
| skip_left: "removed_char c \<Longrightarrow> differ_removed s t \<Longrightarrow> differ_removed (c # s) t"
| skip_right: "removed_char d \<Longrightarrow> differ_removed s t \<Longrightarrow> differ_removed s (d # t)"

code_pred differ_removed .

section \<open>Data frames\<close>

text \<open>
  A data frame has named columns and ordered rows; a row gives each column a cell.
  A column a row does not bind reads as NaN, as \<^verbatim>\<open>pd.read_csv\<close> fills short rows.
\<close>

type_synonym 'a row = "string \<rightharpoonup> 'a pyval"

record 'a dataframe =
  columns :: "string list"
  rows :: "'a row list"

definition cell :: "'a row \<Rightarrow> string \<Rightarrow> 'a pyval" where
  "cell r c = (case r c of None \<Rightarrow> PNaN | Some v \<Rightarrow> v)"

text \<open>\<^verbatim>\<open>df[name] = values\<close>: a new column goes last, an old one is overwritten.\<close>

definition set_column :: "'a dataframe \<Rightarrow> string \<Rightarrow> 'a pyval list \<Rightarrow> 'a dataframe" where
  "set_column df name vals =
     df\<lparr>columns := (if name \<in> set (columns df) then columns df else columns df @ [name]),
        rows := map (\<lambda>(r, v). r(name \<mapsto> v)) (zip (rows df) vals)\<rparr>"

text \<open>\<^verbatim>\<open>df.dropna(subset=...)\<close>: a row stays when none of the subset's cells is null.\<close>

definition dropna :: "string list \<Rightarrow> 'a dataframe \<Rightarrow> 'a dataframe" where
  "dropna cols df =
     df\<lparr>rows := filter (\<lambda>r. list_all (\<lambda>c. \<not> pd_isna (cell r c)) cols) (rows df)\<rparr>"

text \<open>
  \<^verbatim>\<open>df.drop_duplicates(subset=...)\<close> with the default \<^verbatim>\<open>keep='first'\<close>: one pass in
  row order that remembers the keys seen so far.
\<close>

fun keep_first :: "('r \<Rightarrow> 'k) \<Rightarrow> 'k list \<Rightarrow> 'r list \<Rightarrow> 'r list" where
  "keep_first key seen [] = []"
| "keep_first key seen (r # rs) =
     (if key r \<in> set seen then keep_first key seen rs
      else r # keep_first key (key r # seen) rs)"

definition drop_duplicates :: "string list \<Rightarrow> 'a dataframe \<Rightarrow> 'a dataframe" where
  "drop_duplicates cols df =
     df\<lparr>rows := keep_first (\<lambda>r. map (cell r) cols) [] (rows df)\<rparr>"

section \<open>\<^verbatim>\<open>clean_cusip_file\<close>\<close>

text \<open>The value \<^verbatim>\<open>clean_cusip\<close> returns, as a cell.\<close>

fun result_cell :: "string option \<Rightarrow> 'a pyval" where
  "result_cell None = PNone"
| "result_cell (Some s) = PStr s"

text \<open>Lines 41 to 43: the new column, then the two filters.\<close>

definition clean_cusip_frame :: "('a \<Rightarrow> string) \<Rightarrow> 'a dataframe \<Rightarrow> 'a dataframe" where
  "clean_cusip_frame str_of df =
     (let df1 = set_column df ''cusip_clean''
                  (map (\<lambda>r. result_cell (clean_cusip str_of (cell r ''cusip''))) (rows df));
          df2 = dropna [''cusip_clean''] df1
      in drop_duplicates [''cusip_clean''] df2)"

text \<open>
  What the function sees of the outside: \<^verbatim>\<open>pd.read_csv\<close> returns a frame or raises
  (\<open>Inl\<close>, with the exception's text), \<^verbatim>\<open>to_csv\<close> may raise for a path, the files
  written so far, and the lines printed.
\<close>

record 'a world =
  read_csv :: "string \<Rightarrow> string + 'a dataframe"
  to_csv_error :: "string \<Rightarrow> string option"
  written :: "(string \<times> 'a dataframe) list"
  stdout :: "string list"

definition print :: "string \<Rightarrow> 'a world \<Rightarrow> 'a world" where
  "print line w = w\<lparr>stdout := stdout w @ [line]\<rparr>"

definition clean_cusip_file ::
  "('a \<Rightarrow> string) \<Rightarrow> string \<Rightarrow> string \<Rightarrow> 'a world \<Rightarrow> bool \<times> 'a world" where
  "clean_cusip_file str_of input_file output_file w =
     (case read_csv w input_file of
        Inl e \<Rightarrow> (False, print (''Error processing CUSIP file: '' @ e) w)
      | Inr df \<Rightarrow>
          if ''cusip'' \<in> set (columns df) then
            let df' = clean_cusip_frame str_of df;
                w1 = print (''Processed '' @ digits10 (length (rows df'))
                            @ '' records with clean CUSIPs'') w
            in (case to_csv_error w1 output_file of
                  Some e \<Rightarrow> (False, print (''Error processing CUSIP file: '' @ e) w1)
                | None \<Rightarrow>
                    (True, print (''Clean CUSIP file saved to: '' @ output_file)
                             (w1\<lparr>written := written w1 @ [(output_file, df')]\<rparr>)))
          else (False, print ''No 'cusip' column found in input file'' w))"

text \<open>
  A record's canonical identifier, and the record with it in the new column.
\<close>

definition canonical_of :: "('a \<Rightarrow> string) \<Rightarrow> 'a row \<Rightarrow> string option" where
  "canonical_of str_of r = clean_cusip str_of (cell r ''cusip'')"

definition with_clean :: "('a \<Rightarrow> string) \<Rightarrow> 'a row \<Rightarrow> 'a row" where
  "with_clean str_of r = r(''cusip_clean'' \<mapsto> result_cell (canonical_of str_of r))"

text \<open>The three records of the specification's deduplication example.\<close>

definition example_frame :: "'a dataframe" where
  "example_frame =
     \<lparr>columns = [''cusip''],
      rows = [[''cusip'' \<mapsto> PStr ''AB12340''],
              [''cusip'' \<mapsto> PStr ''ab1234 0''],
              [''cusip'' \<mapsto> PStr ''ZZ999999'']]\<rparr>"

text \<open>Records without an identifier, and one with; a file without the column.\<close>

definition absent_frame :: "'a dataframe" where
  "absent_frame =
     \<lparr>columns = [''cusip''],
      rows = [[''cusip'' \<mapsto> PNaN],
              [''cusip'' \<mapsto> PStr []],
              [''cusip'' \<mapsto> PStr ''AB12340''],
              [''cusip'' \<mapsto> PNone]]\<rparr>"

definition no_cusip_world :: "'a world" where
  "no_cusip_world =
     \<lparr>read_csv = (\<lambda>path. if path = ''in.csv''
                    then Inr \<lparr>columns = [''ticker''], rows = [[''ticker'' \<mapsto> PStr ''AAPL'']]\<rparr>
                    else Inl ''No such file or directory''),
      to_csv_error = (\<lambda>path. None),
      written = [],
      stdout = []\<rparr>"

section \<open>Characters\<close>

lemma space_not_AZ09: "is_space c \<Longrightarrow> \<not> is_AZ09 c"
  by (auto simp: is_space_def is_AZ09_def Let_def)

lemma upper_char_space: "is_space c \<Longrightarrow> upper_char c = [c]"
  by (auto simp: is_space_def upper_char_def Let_def)

lemma upper_char_AZ09: "is_AZ09 c \<Longrightarrow> upper_char c = [c]"
  by (auto simp: is_AZ09_def upper_char_def Let_def)

section \<open>The cleaned form\<close>

lemma cleaned_form_Nil: "cleaned_form [] = []"
  by (simp add: cleaned_form_def py_upper_def)

lemma cleaned_form_Cons:
  "cleaned_form (c # s) = filter is_AZ09 (upper_char c) @ cleaned_form s"
  by (simp add: cleaned_form_def py_upper_def)

lemma cleaned_form_append: "cleaned_form (xs @ ys) = cleaned_form xs @ cleaned_form ys"
  by (simp add: cleaned_form_def py_upper_def)

lemma cleaned_form_spaces: "\<forall>c\<in>set xs. is_space c \<Longrightarrow> cleaned_form xs = []"
  by (induction xs) (simp_all add: cleaned_form_Nil cleaned_form_Cons upper_char_space space_not_AZ09)

lemma cleaned_form_all: "list_all is_AZ09 (cleaned_form s)"
  by (simp add: cleaned_form_def list_all_iff)

text \<open>Stripping changes nothing that survives line 17.\<close>

lemma cleaned_form_dropWhile: "cleaned_form (dropWhile is_space s) = cleaned_form s"
proof -
  have "cleaned_form s =
      cleaned_form (takeWhile is_space s) @ cleaned_form (dropWhile is_space s)"
    by (metis cleaned_form_append takeWhile_dropWhile_id)
  moreover have "cleaned_form (takeWhile is_space s) = []"
    by (rule cleaned_form_spaces) (auto dest: set_takeWhileD)
  ultimately show ?thesis by simp
qed

lemma cleaned_form_rev_dropWhile:
  "cleaned_form (rev (dropWhile is_space (rev t))) = cleaned_form t"
proof -
  have "rev t = takeWhile is_space (rev t) @ dropWhile is_space (rev t)" by simp
  then have "t = rev (dropWhile is_space (rev t)) @ rev (takeWhile is_space (rev t))"
    by (metis rev_append rev_rev_ident)
  then have "cleaned_form t =
      cleaned_form (rev (dropWhile is_space (rev t)))
        @ cleaned_form (rev (takeWhile is_space (rev t)))"
    by (metis cleaned_form_append)
  moreover have "cleaned_form (rev (takeWhile is_space (rev t))) = []"
    by (rule cleaned_form_spaces) (auto dest: set_takeWhileD)
  ultimately show ?thesis by simp
qed

lemma cleaned_form_strip: "re_sub_AZ09 (py_upper (py_strip s)) = cleaned_form s"
  using cleaned_form_rev_dropWhile [of "dropWhile is_space s"] cleaned_form_dropWhile [of s]
  by (simp add: py_strip_def re_sub_AZ09_def cleaned_form_def)

lemma canonical_fixed:
  assumes "is_canonical r"
  shows "cleaned_form r = r"
proof -
  have a: "\<forall>c\<in>set r. is_AZ09 c"
    using assms by (simp add: is_canonical_def list_all_iff)
  then have "py_upper r = r"
    by (induction r) (simp_all add: py_upper_def upper_char_AZ09)
  with a show ?thesis by (simp add: cleaned_form_def)
qed

section \<open>\<^verbatim>\<open>clean_cusip\<close> in one equation\<close>

lemma clean_cusip_eq:
  "clean_cusip str_of v =
     (if pd_isna v \<or> v = PStr [] then None
      else if length (cleaned_form (py_str str_of v)) < 6 then None
      else Some (take 8 (cleaned_form (py_str str_of v) @ ''00'')))"
  by (auto simp: clean_cusip_def Let_def cleaned_form_strip)

lemma clean_cusip_PStr:
  "clean_cusip str_of (PStr s) =
     (if length (cleaned_form s) < 6 then None
      else Some (take 8 (cleaned_form s @ ''00'')))"
  by (cases "s = []") (simp_all add: clean_cusip_eq cleaned_form_Nil)

lemma clean_cusip_Some_canonical:
  assumes "clean_cusip str_of v = Some r"
  shows "is_canonical r"
proof -
  let ?t = "cleaned_form (py_str str_of v)"
  from assms have r: "r = take 8 (?t @ ''00'')" and len: "6 \<le> length ?t"
    by (auto simp: clean_cusip_eq split: if_splits)
  have "\<forall>c\<in>set ?t. is_AZ09 c"
    using cleaned_form_all [of "py_str str_of v"] by (simp add: list_all_iff)
  moreover have "is_AZ09 (CHR ''0'')" by (simp add: is_AZ09_def)
  ultimately have "\<forall>c\<in>set r. is_AZ09 c"
    unfolding r by (auto dest!: in_set_takeD)
  moreover from len have "length r = 8" unfolding r by simp
  ultimately show ?thesis by (simp add: is_canonical_def list_all_iff)
qed

section \<open>The claims on \<^verbatim>\<open>clean_cusip\<close>\<close>

text \<open>
  C1. \<^verbatim>\<open>clean_cusip\<close> returns for every scalar it is given: it is a total function of
  the model, with no failing branch, as lines 13 to 33 raise nowhere on a scalar. Its
  result is \<^verbatim>\<open>None\<close> or a string of exactly 8 characters, all in \<^verbatim>\<open>A-Z0-9\<close>.
\<close>

theorem clean_cusip_canonical:
  "clean_cusip str_of v = None \<or> (\<exists>r. clean_cusip str_of v = Some r \<and> is_canonical r)"
  by (cases "clean_cusip str_of v") (simp_all add: clean_cusip_Some_canonical)

theorem clean_cusip_canonical_witness:
  "clean_cusip (\<lambda>_::unit. ''1.5'') (PStr ''ab1234 0'') = Some ''AB123400''
     \<and> is_canonical ''AB123400''"
proof -
  have e: "clean_cusip (\<lambda>_::unit. ''1.5'') (PStr ''ab1234 0'') = Some ''AB123400''"
    by code_simp
  from clean_cusip_canonical [of "\<lambda>_::unit. ''1.5''" "PStr ''ab1234 0''"] e
  show ?thesis by simp
qed

text \<open>
  C2. A raw string whose cleaned form has length 6, 7 or 8 yields a string of length
  exactly 8 that starts with the cleaned form and ends in the \<^verbatim>\<open>0\<close>s that fill it up:
  two for length 6, one for length 7, none for length 8.
\<close>

theorem clean_cusip_pad:
  assumes "length (cleaned_form s) \<in> {6, 7, 8}"
  shows "\<exists>r. clean_cusip str_of (PStr s) = Some r \<and> length r = 8
            \<and> take (length (cleaned_form s)) r = cleaned_form s
            \<and> r = cleaned_form s @ replicate (8 - length (cleaned_form s)) (CHR ''0'')"
  using assms by (auto simp: clean_cusip_PStr numeral_eq_Suc)

theorem clean_cusip_pad_witness:
  "length (cleaned_form ''ab-1234'') \<in> {6, 7, 8}
     \<and> clean_cusip (\<lambda>_::unit. ''1.5'') (PStr ''ab-1234'') = Some ''AB123400''"
proof -
  have c: "cleaned_form ''ab-1234'' = ''AB1234''" by code_simp
  then have h: "length (cleaned_form ''ab-1234'') \<in> {6, 7, 8}" by simp
  from clean_cusip_pad [OF h, of "\<lambda>_::unit. ''1.5''"] h c
  show ?thesis by (simp add: numeral_eq_Suc)
qed

text \<open>
  C3. A raw string whose cleaned form is shorter than 6 characters yields \<^verbatim>\<open>None\<close>.
\<close>

theorem clean_cusip_short:
  "length (cleaned_form s) < 6 \<Longrightarrow> clean_cusip str_of (PStr s) = None"
  by (simp add: clean_cusip_PStr)

theorem clean_cusip_short_witness:
  "length (cleaned_form ''a.b-12'') < 6
     \<and> clean_cusip (\<lambda>_::unit. ''1.5'') (PStr ''a.b-12'') = None"
proof -
  have c: "cleaned_form ''a.b-12'' = ''AB12''" by code_simp
  then have h: "length (cleaned_form ''a.b-12'') < 6" by simp
  from clean_cusip_short [OF h, of "\<lambda>_::unit. ''1.5''"] h
  show ?thesis by simp
qed

text \<open>
  C4. A raw string whose cleaned form has 9 characters or more yields the first 8
  characters of the cleaned form: the branch of line 29 (length 9) and the branch of
  line 31 (any greater length) compute the same.
\<close>

theorem clean_cusip_truncate:
  "9 \<le> length (cleaned_form s) \<Longrightarrow>
     clean_cusip str_of (PStr s) = Some (take 8 (cleaned_form s))"
  by (simp add: clean_cusip_PStr)

theorem clean_cusip_truncate_witness:
  "9 \<le> length (cleaned_form ''037833100'')
     \<and> 9 \<le> length (cleaned_form ''us-0378331005'')
     \<and> clean_cusip (\<lambda>_::unit. ''1.5'') (PStr ''037833100'') = Some ''03783310''
     \<and> clean_cusip (\<lambda>_::unit. ''1.5'') (PStr ''us-0378331005'') = Some ''US037833''"
proof -
  have c1: "cleaned_form ''037833100'' = ''037833100''" by code_simp
  have c2: "cleaned_form ''us-0378331005'' = ''US0378331005''" by code_simp
  from c1 have h1: "9 \<le> length (cleaned_form ''037833100'')" by simp
  from c2 have h2: "9 \<le> length (cleaned_form ''us-0378331005'')" by simp
  from clean_cusip_truncate [OF h1, of "\<lambda>_::unit. ''1.5''"]
       clean_cusip_truncate [OF h2, of "\<lambda>_::unit. ''1.5''"] h1 h2 c1 c2
  show ?thesis by simp
qed

text \<open>
  C7. Cleaning is idempotent on its results: when \<^verbatim>\<open>clean_cusip\<close> returns a string
  (for a raw string or for any other cell), cleaning that string returns it again.
\<close>

theorem clean_cusip_idempotent:
  assumes "clean_cusip str_of v = Some r"
  shows "clean_cusip str_of (PStr r) = Some r"
proof -
  from assms have c: "is_canonical r" by (rule clean_cusip_Some_canonical)
  then have "cleaned_form r = r" by (rule canonical_fixed)
  moreover from c have "length r = 8" by (simp add: is_canonical_def)
  ultimately show ?thesis by (simp add: clean_cusip_PStr)
qed

theorem clean_cusip_idempotent_witness:
  "clean_cusip (\<lambda>_::unit. ''1.5'') (PStr ''ab-1234'') = Some ''AB123400''
     \<and> clean_cusip (\<lambda>_::unit. ''1.5'') (PStr ''AB123400'') = Some ''AB123400''"
proof -
  have e: "clean_cusip (\<lambda>_::unit. ''1.5'') (PStr ''ab-1234'') = Some ''AB123400''"
    by code_simp
  from clean_cusip_idempotent [OF e] e show ?thesis by simp
qed

text \<open>
  C10. A cell that is neither null nor the empty string is cleaned as its string
  representation \<^verbatim>\<open>str(x)\<close> is, whatever its type: line 16 converts it first. So a
  float printed as \<^verbatim>\<open>123456.0\<close> loses its point and is padded like the string.
\<close>

theorem clean_cusip_str:
  "\<not> pd_isna x \<Longrightarrow> x \<noteq> PStr [] \<Longrightarrow>
     clean_cusip str_of x = clean_cusip str_of (PStr (py_str str_of x))"
  by (simp add: clean_cusip_PStr clean_cusip_eq cleaned_form_Nil)

theorem clean_cusip_str_witness:
  "\<not> pd_isna (POther ()) \<and> POther () \<noteq> PStr []
     \<and> clean_cusip (\<lambda>_::unit. ''123456.0'') (POther ()) = Some ''12345600''
     \<and> clean_cusip (\<lambda>_::unit. ''123456.0'') (PStr ''123456.0'') = Some ''12345600''"
proof -
  have e: "clean_cusip (\<lambda>_::unit. ''123456.0'') (PStr ''123456.0'') = Some ''12345600''"
    by code_simp
  from clean_cusip_str [of "POther ()" "\<lambda>_::unit. ''123456.0''"] e
  show ?thesis by simp
qed

section \<open>Strings that differ only by case and removed characters\<close>


lemma removed_char_outside: "removed_char c \<Longrightarrow> outside_AZ09 c"
  by (auto simp: removed_char_def outside_AZ09_def space_not_AZ09 upper_char_AZ09)

text \<open>The narrower difference is a case of the one the specification words.\<close>

lemma differ_removed_differ_only: "differ_removed s t \<Longrightarrow> differ_only s t"
  by (induction rule: differ_removed.induct)
     (auto intro: differ_only.intros removed_char_outside)





section \<open>The filtering step\<close>

lemma rows_clean_cusip_frame:
  "rows (clean_cusip_frame str_of df) =
     keep_first (\<lambda>r. [cell r ''cusip_clean'']) []
       (filter (\<lambda>r. \<not> pd_isna (cell r ''cusip_clean'')) (map (with_clean str_of) (rows df)))"
  by (simp add: clean_cusip_frame_def drop_duplicates_def dropna_def set_column_def Let_def
      zip_map2 zip_same_conv_map o_def with_clean_def [abs_def] canonical_of_def)

lemma keep_first_subset: "set (keep_first k seen xs) \<subseteq> set xs"
  by (induction xs arbitrary: seen) auto

text \<open>
  The pass with its list of seen keys keeps position \<open>i\<close> exactly when the key there
  is new: not seen before the pass, and at no earlier position that passed the filter.
\<close>

lemma keep_first_filter_nth:
  "keep_first k seen (filter p xs) =
     map (\<lambda>i. xs ! i)
       (filter (\<lambda>i. p (xs ! i) \<and> k (xs ! i) \<notin> set seen
                  \<and> (\<forall>j<i. p (xs ! j) \<longrightarrow> k (xs ! j) \<noteq> k (xs ! i)))
          [0..<length xs])"
proof (induction xs arbitrary: seen)
  case Nil
  show ?case by simp
next
  case (Cons x xs)
  let ?Q = "\<lambda>s i. p (xs ! i) \<and> k (xs ! i) \<notin> set s
              \<and> (\<forall>j<i. p (xs ! j) \<longrightarrow> k (xs ! j) \<noteq> k (xs ! i))"
  let ?P = "\<lambda>i. p ((x # xs) ! i) \<and> k ((x # xs) ! i) \<notin> set seen
              \<and> (\<forall>j<i. p ((x # xs) ! j) \<longrightarrow> k ((x # xs) ! j) \<noteq> k ((x # xs) ! i))"
  have upt: "[0..<length (x # xs)] = 0 # map Suc [0..<length xs]"
    by (simp add: upt_conv_Cons map_Suc_upt del: upt_Suc)
  have rhs: "map (\<lambda>i. (x # xs) ! i) (filter ?P [0..<length (x # xs)]) =
      (if ?P 0 then [x] else [])
        @ map (\<lambda>i. xs ! i) (filter (\<lambda>i. ?P (Suc i)) [0..<length xs])"
    unfolding upt by (simp add: filter_map o_def)
  show ?case
  proof (cases "p x \<and> k x \<notin> set seen")
    case True
    have "filter (\<lambda>i. ?P (Suc i)) [0..<length xs] = filter (?Q (k x # seen)) [0..<length xs]"
      using True by (intro filter_cong refl) (auto simp: All_less_Suc2)
    moreover have "?P 0" using True by simp
    ultimately show ?thesis
      using True unfolding rhs by (simp add: Cons.IH)
  next
    case False
    have "filter (\<lambda>i. ?P (Suc i)) [0..<length xs] = filter (?Q seen) [0..<length xs]"
      using False by (intro filter_cong refl) (auto simp: All_less_Suc2)
    moreover have "\<not> ?P 0" using False by auto
    ultimately show ?thesis
      using False unfolding rhs by (auto simp: Cons.IH)
  qed
qed

lemma pd_isna_result_cell: "pd_isna (result_cell x :: 'a pyval) = (x = None)"
  by (cases x) simp_all

lemma result_cell_eq: "(result_cell x :: 'a pyval) = result_cell y \<longleftrightarrow> x = y"
  by (cases x; cases y) simp_all

lemma cell_with_clean:
  "cell (with_clean str_of r) ''cusip_clean'' = result_cell (canonical_of str_of r)"
  "cell (with_clean str_of r) ''cusip'' = cell r ''cusip''"
  by (simp_all add: cell_def with_clean_def)

lemma cell_single: "cell [c \<mapsto> v] c = v"
  by (simp add: cell_def)

lemma rows_clean_cusip_frame_nth:
  "rows (clean_cusip_frame str_of df) =
     map (\<lambda>i. with_clean str_of (rows df ! i))
       (filter (\<lambda>i. canonical_of str_of (rows df ! i) \<noteq> None
                  \<and> (\<forall>j<i. canonical_of str_of (rows df ! j)
                              \<noteq> canonical_of str_of (rows df ! i)))
          [0..<length (rows df)])"
proof -
  let ?rs = "rows df"
  let ?xs = "map (with_clean str_of) ?rs"
  let ?c = "\<lambda>i. canonical_of str_of (?rs ! i)"
  let ?P = "\<lambda>i. \<not> pd_isna (cell (?xs ! i) ''cusip_clean'')
              \<and> [cell (?xs ! i) ''cusip_clean''] \<notin> set []
              \<and> (\<forall>j<i. \<not> pd_isna (cell (?xs ! j) ''cusip_clean'') \<longrightarrow>
                    [cell (?xs ! j) ''cusip_clean''] \<noteq> [cell (?xs ! i) ''cusip_clean''])"
  let ?Q = "\<lambda>i. ?c i \<noteq> None \<and> (\<forall>j<i. ?c j \<noteq> ?c i)"
  have f: "filter ?P [0..<length ?rs] = filter ?Q [0..<length ?rs]"
    by (intro filter_cong refl)
       (auto simp: cell_with_clean pd_isna_result_cell result_cell_eq)
  have m: "map (\<lambda>i. ?xs ! i) (filter ?Q [0..<length ?rs]) =
      map (\<lambda>i. with_clean str_of (?rs ! i)) (filter ?Q [0..<length ?rs])"
    by (intro map_cong refl) simp
  have "rows (clean_cusip_frame str_of df) = map (\<lambda>i. ?xs ! i) (filter ?P [0..<length ?xs])"
    unfolding rows_clean_cusip_frame by (rule keep_first_filter_nth)
  then show ?thesis using f m by simp
qed

lemma example_cleaned:
  "cleaned_form ''AB12340'' = ''AB12340''"
  "cleaned_form ''ab1234 0'' = ''AB12340''"
  "cleaned_form ''ZZ999999'' = ''ZZ999999''"
  by code_simp+

lemma example_canonical:
  "canonical_of str_of [''cusip'' \<mapsto> PStr ''AB12340''] = Some ''AB123400''"
  "canonical_of str_of [''cusip'' \<mapsto> PStr ''ab1234 0''] = Some ''AB123400''"
  "canonical_of str_of [''cusip'' \<mapsto> PStr ''ZZ999999''] = Some ''ZZ999999''"
  "canonical_of str_of [''cusip'' \<mapsto> PNaN] = None"
  "canonical_of str_of [''cusip'' \<mapsto> PNone] = None"
  "canonical_of str_of [''cusip'' \<mapsto> PStr []] = None"
  by (simp_all add: canonical_of_def cell_def clean_cusip_eq cleaned_form_Nil example_cleaned)

lemma example_frame_rows:
  "rows (clean_cusip_frame str_of example_frame) =
     [with_clean str_of [''cusip'' \<mapsto> PStr ''AB12340''],
      with_clean str_of [''cusip'' \<mapsto> PStr ''ZZ999999'']]"
  by (simp add: rows_clean_cusip_frame example_frame_def cell_with_clean example_canonical)

text \<open>
  C5. The filtering step keeps the record at position \<open>i\<close> (with its canonical
  identifier in the new column) exactly when that identifier is not absent and no
  earlier record has the same one, and it keeps the records in their order. So every
  record whose identifier normalizes to absent is removed, and of the records with one
  canonical identifier only the first stays. Of the three records \<^verbatim>\<open>AB12340\<close>,
  \<^verbatim>\<open>ab1234 0\<close>, \<^verbatim>\<open>ZZ999999\<close> exactly 2 remain, the first and the third.
\<close>

theorem clean_cusip_frame_first:
  "rows (clean_cusip_frame str_of df) =
     map (\<lambda>i. with_clean str_of (rows df ! i))
       (filter (\<lambda>i. canonical_of str_of (rows df ! i) \<noteq> None
                  \<and> (\<forall>j<i. canonical_of str_of (rows df ! j)
                              \<noteq> canonical_of str_of (rows df ! i)))
          [0..<length (rows df)])
   \<and> length (rows (clean_cusip_frame str_of example_frame)) = 2
   \<and> map (\<lambda>r. cell r ''cusip'') (rows (clean_cusip_frame str_of example_frame))
       = [PStr ''AB12340'', PStr ''ZZ999999'']"
  using rows_clean_cusip_frame_nth [of str_of df]
  by (simp add: example_frame_rows cell_with_clean cell_single)

theorem clean_cusip_frame_first_witness:
  "rows (clean_cusip_frame (\<lambda>_::unit. ''1.5'') example_frame) =
     [with_clean (\<lambda>_::unit. ''1.5'') (rows example_frame ! 0),
      with_clean (\<lambda>_::unit. ''1.5'') (rows example_frame ! 2)]"
proof -
  have r: "rows (example_frame :: unit dataframe) =
      [[''cusip'' \<mapsto> PStr ''AB12340''], [''cusip'' \<mapsto> PStr ''ab1234 0''],
       [''cusip'' \<mapsto> PStr ''ZZ999999'']]"
    by (simp add: example_frame_def)
  have n: "rows (example_frame :: unit dataframe) ! 0 = [''cusip'' \<mapsto> PStr ''AB12340'']"
    "rows (example_frame :: unit dataframe) ! Suc 0 = [''cusip'' \<mapsto> PStr ''ab1234 0'']"
    "rows (example_frame :: unit dataframe) ! 2 = [''cusip'' \<mapsto> PStr ''ZZ999999'']"
    by (simp_all add: r)
  have u: "[0..<length (rows (example_frame :: unit dataframe))] = [0, 1, 2]"
    unfolding r by (simp add: upt_rec)
  have q: "(\<forall>j<(1::nat). P j) = P 0" "(\<forall>j<(2::nat). P j) = (P 0 \<and> P 1)" for P
    by (auto simp: less_Suc_eq numeral_2_eq_2)
  from clean_cusip_frame_first [of "\<lambda>_::unit. ''1.5''" example_frame]
  have "rows (clean_cusip_frame (\<lambda>_::unit. ''1.5'') example_frame) =
      map (\<lambda>i. with_clean (\<lambda>_::unit. ''1.5'') (rows example_frame ! i))
        (filter (\<lambda>i. canonical_of (\<lambda>_::unit. ''1.5'') (rows example_frame ! i) \<noteq> None
                   \<and> (\<forall>j<i. canonical_of (\<lambda>_::unit. ''1.5'') (rows example_frame ! j)
                              \<noteq> canonical_of (\<lambda>_::unit. ''1.5'') (rows example_frame ! i)))
           [0, 1, 2])"
    unfolding u by (rule conjunct1)
  also have "filter (\<lambda>i. canonical_of (\<lambda>_::unit. ''1.5'') (rows example_frame ! i) \<noteq> None
                   \<and> (\<forall>j<i. canonical_of (\<lambda>_::unit. ''1.5'') (rows example_frame ! j)
                              \<noteq> canonical_of (\<lambda>_::unit. ''1.5'') (rows example_frame ! i)))
           [0, 1, 2] = [0, 2]"
    by (simp add: q n example_canonical)
  finally show ?thesis by simp
qed

text \<open>
  C6. When the file that was read has no \<^verbatim>\<open>cusip\<close> column, the operation reports
  failure: it returns \<^verbatim>\<open>False\<close> (on which the script exits with status 1), prints
  the message of line 47 and stops before line 50, so that no file is written.
\<close>

theorem clean_cusip_file_no_column:
  assumes "read_csv w input_file = Inr df" and "''cusip'' \<notin> set (columns df)"
  shows "fst (clean_cusip_file str_of input_file output_file w) = False
       \<and> written (snd (clean_cusip_file str_of input_file output_file w)) = written w
       \<and> stdout (snd (clean_cusip_file str_of input_file output_file w))
           = stdout w @ [''No 'cusip' column found in input file'']"
  using assms by (simp add: clean_cusip_file_def print_def)

theorem clean_cusip_file_no_column_witness:
  "read_csv (no_cusip_world :: unit world) ''in.csv''
       = Inr \<lparr>columns = [''ticker''], rows = [[''ticker'' \<mapsto> PStr ''AAPL'']]\<rparr>
     \<and> ''cusip'' \<notin> set [''ticker'']
     \<and> fst (clean_cusip_file (\<lambda>_::unit. ''1.5'') ''in.csv'' ''out.csv'' no_cusip_world) = False
     \<and> written (snd (clean_cusip_file (\<lambda>_::unit. ''1.5'') ''in.csv'' ''out.csv'' no_cusip_world))
         = []"
proof -
  let ?df = "\<lparr>columns = [''ticker''], rows = [[''ticker'' \<mapsto> PStr ''AAPL'']]\<rparr> :: unit dataframe"
  have h1: "read_csv (no_cusip_world :: unit world) ''in.csv'' = Inr ?df"
    by (simp add: no_cusip_world_def)
  have h2: "''cusip'' \<notin> set (columns ?df)" by simp
  have w: "written (no_cusip_world :: unit world) = []"
    by (simp add: no_cusip_world_def)
  from clean_cusip_file_no_column [OF h1 h2, of "\<lambda>_::unit. ''1.5''" "''out.csv''"] h1 w
  show ?thesis by simp
qed

text \<open>
  C9. An absent identifier (\<^verbatim>\<open>None\<close> or NaN) and the empty string are cleaned to
  \<^verbatim>\<open>None\<close>, and the filtering step drops their records: every record it keeps comes
  from a record of the input whose raw identifier is neither null nor empty.
\<close>

theorem clean_cusip_absent_dropped:
  "clean_cusip str_of PNone = None \<and> clean_cusip str_of PNaN = None
     \<and> clean_cusip str_of (PStr []) = None
     \<and> (\<forall>r'\<in>set (rows (clean_cusip_frame str_of df)).
          \<exists>r\<in>set (rows df). r' = with_clean str_of r
            \<and> \<not> pd_isna (cell r ''cusip'') \<and> cell r ''cusip'' \<noteq> PStr [])"
proof -
  have "\<exists>r\<in>set (rows df). r' = with_clean str_of r
          \<and> \<not> pd_isna (cell r ''cusip'') \<and> cell r ''cusip'' \<noteq> PStr []"
    if "r' \<in> set (rows (clean_cusip_frame str_of df))" for r'
  proof -
    from that
    have "r' \<in> set (keep_first (\<lambda>r. [cell r ''cusip_clean'']) []
                     (filter (\<lambda>r. \<not> pd_isna (cell r ''cusip_clean''))
                        (map (with_clean str_of) (rows df))))"
      by (simp add: rows_clean_cusip_frame)
    then have "r' \<in> set (filter (\<lambda>r. \<not> pd_isna (cell r ''cusip_clean''))
                          (map (with_clean str_of) (rows df)))"
      by (rule subsetD [OF keep_first_subset])
    then obtain r where r: "r \<in> set (rows df)" "r' = with_clean str_of r"
      and "canonical_of str_of r \<noteq> None"
      by (auto simp: cell_with_clean pd_isna_result_cell)
    then have "\<not> pd_isna (cell r ''cusip'') \<and> cell r ''cusip'' \<noteq> PStr []"
      by (auto simp: canonical_of_def clean_cusip_def)
    with r show ?thesis by blast
  qed
  then show ?thesis by (simp add: clean_cusip_def)
qed

theorem clean_cusip_absent_dropped_witness:
  "clean_cusip (\<lambda>_::unit. ''1.5'') PNaN = None
   \<and> clean_cusip (\<lambda>_::unit. ''1.5'') (PStr []) = None
   \<and> map (\<lambda>r. cell r ''cusip'') (rows (absent_frame :: unit dataframe))
       = [PNaN, PStr [], PStr ''AB12340'', PNone]
   \<and> map (\<lambda>r. cell r ''cusip'') (rows (clean_cusip_frame (\<lambda>_::unit. ''1.5'') absent_frame))
       = [PStr ''AB12340'']
   \<and> list_all (\<lambda>r'. \<not> pd_isna (cell r' ''cusip'') \<and> cell r' ''cusip'' \<noteq> PStr [])
        (rows (clean_cusip_frame (\<lambda>_::unit. ''1.5'') absent_frame))"
proof -
  let ?f = "\<lambda>_::unit. ''1.5''"
  have e: "rows (clean_cusip_frame ?f absent_frame)
      = [with_clean ?f [''cusip'' \<mapsto> PStr ''AB12340'']]"
    by (simp add: rows_clean_cusip_frame absent_frame_def cell_with_clean example_canonical)
  have a: "map (\<lambda>r. cell r ''cusip'') (rows (absent_frame :: unit dataframe))
      = [PNaN, PStr [], PStr ''AB12340'', PNone]"
    by (simp add: absent_frame_def cell_single)
  from clean_cusip_absent_dropped [of ?f absent_frame] a
  show ?thesis
    unfolding e by (auto simp: cell_with_clean cell_single)
qed

end
